theory Spec2Isabelle
  imports Complex_Main "HOL-Library.Sublist" "HOL-Library.Multiset"
begin

section \<open>Python values and exceptions\<close>

text \<open>
  The engine of \<^verbatim>\<open>streamlit_app.py\<close> is the coroutine \<^verbatim>\<open>fetch\<close> (one probe of one
  site) and the coroutine \<^verbatim>\<open>run_search\<close> (the scan). Every raise of the source is a
  value \<open>Inl e\<close> of a sum type; a normal return is \<open>Inr v\<close>.
\<close>

datatype py_exn =
    KeyError | IndexError | ValueError | AttributeError | TypeError
  | ClientError | TimeoutError | UnicodeDecodeError

text \<open>The values a catalog entry holds (the catalog is parsed JSON).\<close>

datatype pyval =
    PNone | PBool bool | PInt int | PStr string
  | PList "pyval list" | PDict "(string \<times> pyval) list"

text \<open>\<^verbatim>\<open>d.get(k)\<close>: \<^verbatim>\<open>None\<close> for a missing key.\<close>

definition dict_get :: "(string \<rightharpoonup> pyval) \<Rightarrow> string \<Rightarrow> pyval" where
  "dict_get d k = (case d k of None \<Rightarrow> PNone | Some v \<Rightarrow> v)"

text \<open>
  \<^verbatim>\<open>x in text\<close> for a string \<^verbatim>\<open>text\<close>: a substring test when \<^verbatim>\<open>x\<close> is a string, and
  TypeError for every other left operand.
\<close>

definition str_contains :: "pyval \<Rightarrow> string \<Rightarrow> py_exn + bool" where
  "str_contains x text = (case x of PStr m \<Rightarrow> Inr (sublist m text) | _ \<Rightarrow> Inl TypeError)"

section \<open>\<^verbatim>\<open>str.format\<close> with one positional argument\<close>

text \<open>
  \<^verbatim>\<open>tmpl.format(username)\<close>. The scanner below follows CPython's: \<^verbatim>\<open>{{\<close> and \<^verbatim>\<open>}}\<close> are
  escapes, a lone brace is a ValueError, a field is read up to its closing brace. A
  field with an empty name takes the next automatic index, a field whose name is a
  decimal number takes that index (mixing the two is a ValueError, an index other than
  0 an IndexError, since there is one argument), and any other name is looked up among
  the keyword arguments, of which there are none (KeyError). The first error met from
  the left is the one raised.

  Fields that use more of the format language (an attribute or an index, a conversion,
  a format specification, a nested brace), a name with a character outside ASCII or an
  index of more than 18 digits are not interpreted here: the scanner answers \<open>None\<close>
  and the whole call is left to \<open>format_other\<close> of the runtime.
\<close>

datatype an_state = ANS_INIT | ANS_AUTO | ANS_MANUAL

datatype scan_mode = Literal | Field string

definition field_index :: "an_state \<times> nat \<Rightarrow> string \<Rightarrow> (py_exn + an_state \<times> nat) option" where
  "field_index an name =
     (if list_ex (\<lambda>c. 128 \<le> (of_char c :: nat)) name then None
      else if name = [] then
        (if fst an = ANS_MANUAL then Some (Inl ValueError)
         else if snd an = 0 then Some (Inr (ANS_AUTO, Suc (snd an)))
         else Some (Inl IndexError))
      else if list_all (\<lambda>c. c \<in> set ''0123456789'') name then
        (if 18 < length name then None
         else if fst an = ANS_AUTO then Some (Inl ValueError)
         else if list_all (\<lambda>c. c = CHR ''0'') name then Some (Inr (ANS_MANUAL, snd an))
         else Some (Inl IndexError))
      else Some (Inl KeyError))"

fun emit :: "string \<Rightarrow> (py_exn + string) option \<Rightarrow> (py_exn + string) option" where
  "emit s (Some (Inr r)) = Some (Inr (s @ r))"
| "emit s other = other"

fun do_markup :: "scan_mode \<Rightarrow> an_state \<times> nat \<Rightarrow> string \<Rightarrow> string \<Rightarrow> (py_exn + string) option" where
  "do_markup Literal an [] arg = Some (Inr [])"
| "do_markup (Field name) an [] arg = Some (Inl ValueError)"
| "do_markup Literal an (c # cs) arg =
     (if c = CHR ''{'' then
        (case cs of
           [] \<Rightarrow> Some (Inl ValueError)
         | c' # cs' \<Rightarrow>
             if c' = CHR ''{'' then emit [c] (do_markup Literal an cs' arg)
             else do_markup (Field []) an cs arg)
      else if c = CHR ''}'' then
        (case cs of
           [] \<Rightarrow> Some (Inl ValueError)
         | c' # cs' \<Rightarrow>
             if c' = CHR ''}'' then emit [c] (do_markup Literal an cs' arg)
             else Some (Inl ValueError))
      else emit [c] (do_markup Literal an cs arg))"
| "do_markup (Field name) an (c # cs) arg =
     (if c = CHR ''}'' then
        (case field_index an name of
           None \<Rightarrow> None
         | Some (Inl e) \<Rightarrow> Some (Inl e)
         | Some (Inr an') \<Rightarrow> emit arg (do_markup Literal an' cs arg))
      else if c \<in> set ''{[:!.'' then None
      else do_markup (Field (name @ [c])) an cs arg)"

section \<open>The world outside the program\<close>

text \<open>
  What one GET does, as the probe sees it. \<open>get_result\<close> is the outcome of awaiting
  \<^verbatim>\<open>session.get(url, timeout=TIMEOUT_SECONDS, allow_redirects=True)\<close>: an exception
  (connection failure, timeout, invalid URL), or a response with its \<^verbatim>\<open>status\<close> and
  \<^verbatim>\<open>str(response.url)\<close>, the URL after redirects. \<open>text_result\<close> is the outcome of
  awaiting \<^verbatim>\<open>response.text()\<close>: the decoded body, or an exception (the body cannot be
  read or is not text).

  The three clock fields are the wall clock at three moments of the probe: when
  \<^verbatim>\<open>start_time = time.time()\<close> runs, when the response has arrived (the \<^verbatim>\<open>time.time()\<close>
  of the next line) and when \<^verbatim>\<open>response.text()\<close> has returned the body. The clock is in
  seconds; floats are idealised as reals.
\<close>

record exchange =
  clock_start :: real
  get_result :: "py_exn + int \<times> string"
  clock_got :: real
  text_result :: "py_exn + string"
  clock_read :: real

record runtime =
  format_other :: "string \<Rightarrow> string \<Rightarrow> py_exn + string"
  session_get :: "string \<Rightarrow> exchange"

definition str_format :: "runtime \<Rightarrow> string \<Rightarrow> string \<Rightarrow> py_exn + string" where
  "str_format rt tmpl arg =
     (case do_markup Literal (ANS_INIT, 0) tmpl arg of
        Some r \<Rightarrow> r
      | None \<Rightarrow> format_other rt tmpl arg)"

section \<open>Formatting the latency\<close>

text \<open>
  \<^verbatim>\<open>f"{latency:.0f}"\<close>: the number rounded to an integer, ties to the even neighbour,
  in decimal, with the sign of the number.
\<close>

fun decimal :: "nat \<Rightarrow> string" where
  "decimal n = (if n < 10 then [''0123456789'' ! n] else decimal (n div 10) @ [''0123456789'' ! (n mod 10)])"

definition round_half_even :: "real \<Rightarrow> int" where
  "round_half_even x =
     (let f = \<lfloor>x\<rfloor>; d = x - of_int f in
      if d < 1 / 2 then f
      else if 1 / 2 < d then f + 1
      else if even f then f
      else f + 1)"

definition fmt_0f :: "real \<Rightarrow> string" where
  "fmt_0f x =
     (if x < 0 then CHR ''-'' # decimal (nat (- round_half_even x))
      else decimal (nat (round_half_even x)))"

section \<open>The probe: \<^verbatim>\<open>fetch\<close>\<close>

text \<open>The dict that \<^verbatim>\<open>fetch\<close> returns for a match.\<close>

record found =
  site :: string
  url :: string
  status :: string
  latency_ms :: string
  category :: string

text \<open>
  Line 41, before the \<^verbatim>\<open>try\<close>: \<^verbatim>\<open>url = site_data["url"].format(username)\<close>. A missing
  key is a KeyError; a value that is not a string has no \<^verbatim>\<open>format\<close> (AttributeError).
\<close>

definition build_url :: "runtime \<Rightarrow> (string \<rightharpoonup> pyval) \<Rightarrow> string \<Rightarrow> py_exn + string" where
  "build_url rt site_data username =
     (case site_data ''url'' of
        None \<Rightarrow> Inl KeyError
      | Some (PStr tmpl) \<Rightarrow> str_format rt tmpl username
      | Some _ \<Rightarrow> Inl AttributeError)"

text \<open>
  Lines 52 to 61: \<^verbatim>\<open>exists = False\<close>, then the \<^verbatim>\<open>if\<close>/\<^verbatim>\<open>elif\<close> chain on \<^verbatim>\<open>error_type\<close>.
  Only the \<^verbatim>\<open>message\<close> branch can raise.
\<close>

definition detect ::
  "pyval \<Rightarrow> (string \<rightharpoonup> pyval) \<Rightarrow> int \<Rightarrow> string \<Rightarrow> string \<Rightarrow> string \<Rightarrow> py_exn + bool" where
  "detect error_type site_data http_status text response_url target =
     (if error_type = PStr ''status_code'' then Inr (http_status \<noteq> 404)
      else if error_type = PStr ''message'' then
        (case str_contains (dict_get site_data ''errorMsg'') text of
           Inl e \<Rightarrow> Inl e
         | Inr marker_present \<Rightarrow> Inr (\<not> marker_present))
      else if error_type = PStr ''response_url'' then Inr (response_url = target)
      else Inr False)"

text \<open>
  Lines 45 to 70, the body of the \<^verbatim>\<open>try\<close>. \<open>Inl e\<close>: the body raised \<open>e\<close>;
  \<open>Inr (Some r)\<close>: it returned the dict \<open>r\<close>; \<open>Inr None\<close>: it fell through with
  \<^verbatim>\<open>exists\<close> false.
\<close>

definition fetch_try ::
  "runtime \<Rightarrow> string \<Rightarrow> (string \<rightharpoonup> pyval) \<Rightarrow> string \<Rightarrow> pyval \<Rightarrow> py_exn + found option" where
  "fetch_try rt site_name site_data target error_type =
     (let x = session_get rt target; start_time = clock_start x in
      case get_result x of
        Inl e \<Rightarrow> Inl e
      | Inr (http_status, response_url) \<Rightarrow>
          let latency = (clock_got x - start_time) * 1000 in
          (case text_result x of
             Inl e \<Rightarrow> Inl e
           | Inr text \<Rightarrow>
               (case detect error_type site_data http_status text response_url target of
                  Inl e \<Rightarrow> Inl e
                | Inr exists \<Rightarrow>
                    if exists then
                      Inr (Some \<lparr>site = site_name, url = target, status = ''Found'',
                                 latency_ms = fmt_0f latency, category = ''Social''\<rparr>)
                    else Inr None)))"

text \<open>
  \<^verbatim>\<open>fetch\<close> itself. An exception of line 41 leaves the coroutine (\<open>Inl e\<close>); an
  exception of the \<^verbatim>\<open>try\<close> body is swallowed by the bare \<^verbatim>\<open>except\<close> and \<^verbatim>\<open>None\<close> is
  returned.
\<close>

definition fetch ::
  "runtime \<Rightarrow> string \<Rightarrow> (string \<rightharpoonup> pyval) \<Rightarrow> string \<Rightarrow> py_exn + found option" where
  "fetch rt site_name site_data username =
     (case build_url rt site_data username of
        Inl e \<Rightarrow> Inl e
      | Inr target \<Rightarrow>
          (case fetch_try rt site_name site_data target (dict_get site_data ''errorType'') of
             Inl e \<Rightarrow> Inr None
           | Inr r \<Rightarrow> Inr r))"

text \<open>
  The verdict of a probe, read off the path \<^verbatim>\<open>fetch\<close> takes: \<open>Found\<close> when it returns
  the dict, \<open>NotFound\<close> when the \<^verbatim>\<open>try\<close> body completes with \<^verbatim>\<open>exists\<close> false, and
  \<open>ProbeFailed\<close> when the \<^verbatim>\<open>except\<close> branch is taken. The last two both return
  \<^verbatim>\<open>None\<close>.
\<close>

datatype verdict = Found | NotFound | ProbeFailed

definition verdict ::
  "runtime \<Rightarrow> string \<Rightarrow> (string \<rightharpoonup> pyval) \<Rightarrow> string \<Rightarrow> py_exn + verdict" where
  "verdict rt site_name site_data username =
     (case build_url rt site_data username of
        Inl e \<Rightarrow> Inl e
      | Inr target \<Rightarrow>
          (case fetch_try rt site_name site_data target (dict_get site_data ''errorType'') of
             Inl e \<Rightarrow> Inr ProbeFailed
           | Inr None \<Rightarrow> Inr NotFound
           | Inr (Some r) \<Rightarrow> Inr Found))"

section \<open>The scan: \<^verbatim>\<open>run_search\<close>\<close>

text \<open>
  \<^verbatim>\<open>asyncio.as_completed(tasks)\<close> hands the tasks back in the order in which they finish,
  which the event loop and the network decide. The order is a parameter: each number of
  \<open>choices\<close> picks, among the tasks still pending, the one that finishes next; when
  the choices run out the rest finish in the order of submission. Whatever the choices,
  every task is handed back once.
\<close>

fun as_completed :: "nat list \<Rightarrow> 'a list \<Rightarrow> 'a list" where
  "as_completed [] pending = pending"
| "as_completed (c # choices) pending =
     (if pending = [] then []
      else pending ! (c mod length pending)
           # as_completed choices
               (take (c mod length pending) pending @ drop (Suc (c mod length pending)) pending))"

text \<open>
  The locals of \<^verbatim>\<open>run_search\<close> that the loop changes, and the progress bar: \<open>shown\<close>
  lists the values the bar was given, oldest first.
\<close>

record scan =
  results :: "found list"
  completed :: nat
  shown :: "real list"

text \<open>
  Lines 89 to 94, over the futures in completion order. \<^verbatim>\<open>await future\<close> re-raises an
  exception that left \<^verbatim>\<open>fetch\<close>, which ends the loop and \<^verbatim>\<open>run_search\<close> with it. The
  first component of the result is that exception, if any; the second is the state
  reached. \<open>tot\<close> is the local \<^verbatim>\<open>total\<close>.
\<close>

fun drain :: "nat \<Rightarrow> (py_exn + found option) list \<Rightarrow> scan \<Rightarrow> py_exn option \<times> scan" where
  "drain tot [] s = (None, s)"
| "drain tot (Inl e # futures) s = (Some e, s)"
| "drain tot (Inr result # futures) s =
     drain tot futures
       \<lparr>results = (case result of None \<Rightarrow> results s | Some r \<Rightarrow> results s @ [r]),
        completed = completed s + 1,
        shown = shown s @ [real (completed s + 1) / real tot]\<rparr>"

text \<open>
  Lines 79 to 82: one task per item of \<^verbatim>\<open>list(site_data.items())[:200]\<close>. The catalog
  is the list of its items, in the order of the dict.
\<close>

definition tasks ::
  "runtime \<Rightarrow> string \<Rightarrow> (string \<times> (string \<rightharpoonup> pyval)) list \<Rightarrow> (py_exn + found option) list" where
  "tasks rt username site_data =
     map (\<lambda>(site_name, data). fetch rt site_name data username) (take 200 site_data)"

text \<open>
  \<^verbatim>\<open>run_search\<close>: the tasks, \<^verbatim>\<open>st.progress(0)\<close>, the loop. With \<open>(None, s)\<close> the
  coroutine returns \<open>results s\<close>; with \<open>(Some e, s)\<close> it raises \<open>e\<close>.
\<close>

definition run_search ::
  "runtime \<Rightarrow> nat list \<Rightarrow> string \<Rightarrow> (string \<times> (string \<rightharpoonup> pyval)) list \<Rightarrow> py_exn option \<times> scan" where
  "run_search rt choices username site_data =
     (let tot = length (tasks rt username site_data) in
      drain tot (as_completed choices (tasks rt username site_data))
        \<lparr>results = [], completed = 0, shown = [0]\<rparr>)"

section \<open>Example worlds\<close>

text \<open>
  Three catalog entries, one per detection rule, an entry with no rule, an entry whose
  template has a lone brace, and a network that answers each of their URLs.
\<close>

definition site_a :: "string \<rightharpoonup> pyval" where
  "site_a = [''url'' \<mapsto> PStr ''https://a.test/{}'', ''errorType'' \<mapsto> PStr ''status_code'']"

definition site_b :: "string \<rightharpoonup> pyval" where
  "site_b = [''url'' \<mapsto> PStr ''https://b.test/{}'', ''errorType'' \<mapsto> PStr ''message'',
             ''errorMsg'' \<mapsto> PStr ''User not found'']"

definition site_c :: "string \<rightharpoonup> pyval" where
  "site_c = [''url'' \<mapsto> PStr ''https://c.test/{}'', ''errorType'' \<mapsto> PStr ''response_url'']"

definition site_d :: "string \<rightharpoonup> pyval" where
  "site_d = [''url'' \<mapsto> PStr ''https://d.test/{}'']"

definition site_e :: "string \<rightharpoonup> pyval" where
  "site_e = [''url'' \<mapsto> PStr ''https://e.test/{'', ''errorType'' \<mapsto> PStr ''status_code'']"

text \<open>
  A response that takes a quarter of a second to arrive and whose body is read three
  seconds after the start.
\<close>

definition reply :: "int \<Rightarrow> string \<Rightarrow> string \<Rightarrow> exchange" where
  "reply http_status response_url text =
     \<lparr>clock_start = 1000, get_result = Inr (http_status, response_url), clock_got = 4001 / 4,
      text_result = Inr text, clock_read = 1003\<rparr>"

definition refused :: exchange where
  "refused = \<lparr>clock_start = 1000, get_result = Inl ClientError, clock_got = 1001,
              text_result = Inl ClientError, clock_read = 1001\<rparr>"

definition demo_net :: "string \<Rightarrow> exchange" where
  "demo_net target =
     (if target = ''https://a.test/alice'' then reply 500 target ''Internal Server Error''
      else if target = ''https://b.test/alice'' then reply 200 target ''Sorry. User not found here.''
      else if target = ''https://c.test/alice'' then reply 200 ''https://c.test/login'' ''Sign in''
      else if target = ''https://d.test/alice'' then reply 200 target ''alice''
      else refused)"

text \<open>No example template reaches \<open>format_other\<close>; its value here is arbitrary.\<close>

definition no_other :: "string \<Rightarrow> string \<Rightarrow> py_exn + string" where
  "no_other tmpl arg = Inl ValueError"

definition demo_rt :: runtime where
  "demo_rt = \<lparr>format_other = no_other, session_get = demo_net\<rparr>"

text \<open>A network where nothing answers, and a catalog of 201 entries.\<close>

definition dead_net :: "string \<Rightarrow> exchange" where
  "dead_net target = refused"

definition dead_rt :: runtime where
  "dead_rt = \<lparr>format_other = no_other, session_get = dead_net\<rparr>"

definition numbered :: "nat \<Rightarrow> string \<times> (string \<rightharpoonup> pyval)" where
  "numbered i = (decimal i, site_a)"

definition catalog_201 :: "(string \<times> (string \<rightharpoonup> pyval)) list" where
  "catalog_201 = map numbered [0..<201]"

text \<open>A catalog of two entries, and the dict that the probe of the first one returns.\<close>

definition demo_catalog :: "(string \<times> (string \<rightharpoonup> pyval)) list" where
  "demo_catalog = [(''SiteA'', site_a), (''SiteB'', site_b)]"

definition found_a :: found where
  "found_a = \<lparr>site = ''SiteA'', url = ''https://a.test/alice'', status = ''Found'',
               latency_ms = ''250'', category = ''Social''\<rparr>"

text \<open>The state in which the scan of that catalog ends when the second probe finishes first.\<close>

definition demo_state :: scan where
  "demo_state = \<lparr>results = [found_a], completed = 2, shown = [0, 1 / 2, 1]\<rparr>"

section \<open>Properties of the probe\<close>

subsection \<open>What \<^verbatim>\<open>fetch\<close> returns\<close>

text \<open>Once the URL is built and the response and its body have arrived, the detection
  rule alone decides the result.\<close>

lemma fetch_received:
  assumes "build_url rt site_data username = Inr target"
    and "get_result (session_get rt target) = Inr (http_status, response_url)"
    and "text_result (session_get rt target) = Inr text"
    and "detect (dict_get site_data ''errorType'') site_data http_status text response_url target = Inr exists"
  shows "fetch rt site_name site_data username =
           Inr (if exists then
                  Some \<lparr>site = site_name, url = target, status = ''Found'',
                        latency_ms = fmt_0f ((clock_got (session_get rt target)
                                              - clock_start (session_get rt target)) * 1000),
                        category = ''Social''\<rparr>
                else None)"
    and "verdict rt site_name site_data username = Inr (if exists then Found else NotFound)"
  using assms by (simp_all add: fetch_def verdict_def fetch_try_def Let_def)

text \<open>Nothing raised inside the \<^verbatim>\<open>try\<close> leaves \<^verbatim>\<open>fetch\<close>; what is raised while the URL is
  built does.\<close>

lemma fetch_returns_after_url:
  "build_url rt site_data username = Inr target \<Longrightarrow>
     \<exists>r. fetch rt site_name site_data username = Inr r"
  by (simp add: fetch_def split: sum.splits)

lemma fetch_raises_iff:
  "fetch rt site_name site_data username = Inl e \<longleftrightarrow> build_url rt site_data username = Inl e"
  by (simp add: fetch_def split: sum.splits)

lemma fetch_found_fields:
  assumes "fetch rt site_name site_data username = Inr (Some r)"
  shows "build_url rt site_data username = Inr (url r)"
    and "site r = site_name"
    and "status r = ''Found''"
    and "latency_ms r = fmt_0f ((clock_got (session_get rt (url r))
                                  - clock_start (session_get rt (url r))) * 1000)"
  using assms
  by (auto simp add: fetch_def fetch_try_def Let_def split: sum.splits prod.splits if_splits)

lemma verdict_found_iff:
  "verdict rt site_name site_data username = Inr Found
     \<longleftrightarrow> (\<exists>r. fetch rt site_name site_data username = Inr (Some r))"
  by (auto simp add: fetch_def verdict_def split: sum.splits option.splits)

lemma fetch_None_iff:
  "fetch rt site_name site_data username = Inr None
     \<longleftrightarrow> verdict rt site_name site_data username \<in> {Inr NotFound, Inr ProbeFailed}"
  by (auto simp add: fetch_def verdict_def split: sum.splits option.splits)

lemma fetch_raises_verdict:
  "fetch rt site_name site_data username = Inl e
     \<longleftrightarrow> verdict rt site_name site_data username = Inl e"
  by (auto simp add: fetch_def verdict_def split: sum.splits option.splits)

lemma probe_failed_iff:
  "verdict rt site_name site_data username = Inr ProbeFailed
     \<longleftrightarrow> (\<exists>target e. build_url rt site_data username = Inr target
            \<and> fetch_try rt site_name site_data target (dict_get site_data ''errorType'') = Inl e)"
  by (auto simp add: verdict_def split: sum.splits option.splits)

text \<open>A failed GET, a body that cannot be read and a marker that is not a string all end
  in the \<^verbatim>\<open>except\<close> branch.\<close>

lemma probe_failed_get:
  assumes "build_url rt site_data username = Inr target"
    and "get_result (session_get rt target) = Inl e"
  shows "verdict rt site_name site_data username = Inr ProbeFailed"
    and "fetch rt site_name site_data username = Inr None"
  using assms by (simp_all add: fetch_def verdict_def fetch_try_def Let_def)

lemma probe_failed_text:
  assumes "build_url rt site_data username = Inr target"
    and "get_result (session_get rt target) = Inr (http_status, response_url)"
    and "text_result (session_get rt target) = Inl e"
  shows "verdict rt site_name site_data username = Inr ProbeFailed"
    and "fetch rt site_name site_data username = Inr None"
  using assms by (simp_all add: fetch_def verdict_def fetch_try_def Let_def)

lemma probe_failed_marker:
  assumes "build_url rt site_data username = Inr target"
    and "get_result (session_get rt target) = Inr (http_status, response_url)"
    and "text_result (session_get rt target) = Inr text"
    and "dict_get site_data ''errorType'' = PStr ''message''"
    and "\<And>marker. dict_get site_data ''errorMsg'' \<noteq> PStr marker"
  shows "verdict rt site_name site_data username = Inr ProbeFailed"
    and "fetch rt site_name site_data username = Inr None"
proof -
  have "str_contains (dict_get site_data ''errorMsg'') text = Inl TypeError"
    using assms(5) by (cases "dict_get site_data ''errorMsg''") (auto simp add: str_contains_def)
  then have "detect (dict_get site_data ''errorType'') site_data http_status text response_url target
               = Inl TypeError"
    using assms(4) by (simp add: detect_def)
  then show "verdict rt site_name site_data username = Inr ProbeFailed"
    and "fetch rt site_name site_data username = Inr None"
    using assms(1-3) by (simp_all add: fetch_def verdict_def fetch_try_def Let_def)
qed

text \<open>The clock at the end of the body read is never looked at.\<close>

lemma build_url_clock:
  "build_url (rt\<lparr>session_get := g\<rparr>) site_data username = build_url rt site_data username"
  by (simp add: build_url_def str_format_def split: option.splits pyval.splits)

lemma fetch_try_clock:
  "fetch_try (rt\<lparr>session_get := \<lambda>u. (session_get rt u)\<lparr>clock_read := later u\<rparr>\<rparr>)
         site_name site_data target error_type
     = fetch_try rt site_name site_data target error_type"
  by (simp add: fetch_try_def Let_def split: sum.splits prod.splits)

lemma fetch_ignores_clock_read:
  "fetch (rt\<lparr>session_get := \<lambda>u. (session_get rt u)\<lparr>clock_read := later u\<rparr>\<rparr>)
         site_name site_data username
     = fetch rt site_name site_data username"
  by (simp add: fetch_def fetch_try_clock build_url_clock split: sum.splits)

subsection \<open>The example world, evaluated\<close>

lemma demo_url:
  "build_url demo_rt site_a ''alice'' = Inr ''https://a.test/alice''"
  "build_url demo_rt site_b ''alice'' = Inr ''https://b.test/alice''"
  "build_url demo_rt site_c ''alice'' = Inr ''https://c.test/alice''"
  "build_url demo_rt site_d ''alice'' = Inr ''https://d.test/alice''"
  "build_url demo_rt site_e ''alice'' = Inl ValueError"
  by (simp_all add: build_url_def str_format_def field_index_def
        site_a_def site_b_def site_c_def site_d_def site_e_def)

lemma demo_get:
  "session_get demo_rt ''https://a.test/alice'' = reply 500 ''https://a.test/alice'' ''Internal Server Error''"
  "session_get demo_rt ''https://b.test/alice'' = reply 200 ''https://b.test/alice'' ''Sorry. User not found here.''"
  "session_get demo_rt ''https://c.test/alice'' = reply 200 ''https://c.test/login'' ''Sign in''"
  "session_get demo_rt ''https://d.test/alice'' = reply 200 ''https://d.test/alice'' ''alice''"
  by (simp_all add: demo_rt_def demo_net_def)

lemma reply_fields:
  "get_result (reply st ru text) = Inr (st, ru)"
  "text_result (reply st ru text) = Inr text"
  "clock_start (reply st ru text) = 1000"
  "clock_got (reply st ru text) = 4001 / 4"
  "clock_read (reply st ru text) = 1003"
  by (simp_all add: reply_def)

lemma fmt_250: "fmt_0f 250 = ''250''"
  by (simp add: fmt_0f_def round_half_even_def)

lemma marker_present: "sublist ''User not found'' ''Sorry. User not found here.''"
proof -
  have "''Sorry. User not found here.'' = ''Sorry. '' @ ''User not found'' @ '' here.''"
    by simp
  then show ?thesis
    unfolding sublist_def by blast
qed

lemma fetch_a: "fetch demo_rt ''SiteA'' site_a ''alice'' = Inr (Some found_a)"
proof -
  have t: "detect (dict_get site_a ''errorType'') site_a 500 ''Internal Server Error''
             ''https://a.test/alice'' ''https://a.test/alice'' = Inr True"
    by (simp add: detect_def dict_get_def site_a_def)
  have g: "get_result (session_get demo_rt ''https://a.test/alice'')
             = Inr (500, ''https://a.test/alice'')"
    by (simp add: demo_get reply_fields)
  have b: "text_result (session_get demo_rt ''https://a.test/alice'') = Inr ''Internal Server Error''"
    by (simp add: demo_get reply_fields)
  show ?thesis
    using fetch_received(1)[OF demo_url(1) g b t, of "''SiteA''"]
    by (simp add: demo_get reply_fields fmt_250 found_a_def)
qed

lemma fetch_b: "fetch demo_rt ''SiteB'' site_b ''alice'' = Inr None"
proof -
  have t: "detect (dict_get site_b ''errorType'') site_b 200 ''Sorry. User not found here.''
             ''https://b.test/alice'' ''https://b.test/alice'' = Inr False"
    using marker_present by (simp add: detect_def dict_get_def site_b_def str_contains_def)
  have g: "get_result (session_get demo_rt ''https://b.test/alice'')
             = Inr (200, ''https://b.test/alice'')"
    by (simp add: demo_get reply_fields)
  have b: "text_result (session_get demo_rt ''https://b.test/alice'')
             = Inr ''Sorry. User not found here.''"
    by (simp add: demo_get reply_fields)
  show ?thesis
    using fetch_received(1)[OF demo_url(2) g b t, of "''SiteB''"] by simp
qed

lemma fetch_e: "fetch demo_rt ''SiteE'' site_e ''alice'' = Inl ValueError"
  by (simp add: fetch_raises_iff demo_url)

subsection \<open>The three detection rules\<close>

text \<open>
  C2. A probe of a descriptor whose \<^verbatim>\<open>errorType\<close> is \<^verbatim>\<open>status_code\<close>, once the response and
  its body have arrived: the verdict is \<open>Found\<close> exactly when the status is not 404 (and
  \<open>NotFound\<close> when it is), and \<^verbatim>\<open>fetch\<close> returns a dict exactly then. The witness is a
  status of 500.
\<close>

theorem status_code_rule:
  assumes "build_url rt site_data username = Inr target"
    and "dict_get site_data ''errorType'' = PStr ''status_code''"
    and "get_result (session_get rt target) = Inr (http_status, response_url)"
    and "text_result (session_get rt target) = Inr text"
  shows "verdict rt site_name site_data username
           = Inr (if http_status \<noteq> 404 then Found else NotFound)
       \<and> ((\<exists>r. fetch rt site_name site_data username = Inr (Some r)) = (http_status \<noteq> 404))"
proof -
  have d: "detect (dict_get site_data ''errorType'') site_data http_status text response_url target
             = Inr (http_status \<noteq> 404)"
    using assms(2) by (simp add: detect_def)
  show ?thesis
    using fetch_received[OF assms(1,3,4) d, of site_name] by auto
qed

theorem status_code_rule_witness:
  "verdict demo_rt ''SiteA'' site_a ''alice'' = Inr Found
     \<and> (\<exists>r. fetch demo_rt ''SiteA'' site_a ''alice'' = Inr (Some r))"
proof -
  have t: "dict_get site_a ''errorType'' = PStr ''status_code''"
    by (simp add: dict_get_def site_a_def)
  have g: "get_result (session_get demo_rt ''https://a.test/alice'')
             = Inr (500, ''https://a.test/alice'')"
    by (simp add: demo_get reply_fields)
  have b: "text_result (session_get demo_rt ''https://a.test/alice'') = Inr ''Internal Server Error''"
    by (simp add: demo_get reply_fields)
  show ?thesis
    using status_code_rule[OF demo_url(1) t g b, of "''SiteA''"] by simp
qed

text \<open>
  C3. A probe of a descriptor whose \<^verbatim>\<open>errorType\<close> is \<^verbatim>\<open>message\<close> and whose \<^verbatim>\<open>errorMsg\<close> is
  the string \<open>marker\<close>, once the response and its body have arrived: the verdict is
  \<open>Found\<close> exactly when \<open>marker\<close> is not a substring of the body text, and \<open>NotFound\<close>
  when it is.
\<close>

theorem message_rule:
  assumes "build_url rt site_data username = Inr target"
    and "dict_get site_data ''errorType'' = PStr ''message''"
    and "dict_get site_data ''errorMsg'' = PStr marker"
    and "get_result (session_get rt target) = Inr (http_status, response_url)"
    and "text_result (session_get rt target) = Inr text"
  shows "verdict rt site_name site_data username
           = Inr (if sublist marker text then NotFound else Found)
       \<and> ((\<exists>r. fetch rt site_name site_data username = Inr (Some r)) = (\<not> sublist marker text))"
proof -
  have d: "detect (dict_get site_data ''errorType'') site_data http_status text response_url target
             = Inr (\<not> sublist marker text)"
    using assms(2,3) by (simp add: detect_def str_contains_def)
  show ?thesis
    using fetch_received[OF assms(1,4,5) d, of site_name] by auto
qed

theorem message_rule_witness:
  "verdict demo_rt ''SiteB'' site_b ''alice'' = Inr NotFound
     \<and> \<not> (\<exists>r. fetch demo_rt ''SiteB'' site_b ''alice'' = Inr (Some r))"
proof -
  have t: "dict_get site_b ''errorType'' = PStr ''message''"
    by (simp add: dict_get_def site_b_def)
  have m: "dict_get site_b ''errorMsg'' = PStr ''User not found''"
    by (simp add: dict_get_def site_b_def)
  have g: "get_result (session_get demo_rt ''https://b.test/alice'')
             = Inr (200, ''https://b.test/alice'')"
    by (simp add: demo_get reply_fields)
  have b: "text_result (session_get demo_rt ''https://b.test/alice'')
             = Inr ''Sorry. User not found here.''"
    by (simp add: demo_get reply_fields)
  show ?thesis
    using message_rule[OF demo_url(2) t m g b, of "''SiteB''"] marker_present
    by simp
qed

text \<open>
  C4. A probe of a descriptor whose \<^verbatim>\<open>errorType\<close> is \<^verbatim>\<open>response_url\<close>, once the response
  and its body have arrived: the verdict is \<open>Found\<close> exactly when \<^verbatim>\<open>str(response.url)\<close> is
  the same string as the URL built from the template, and \<open>NotFound\<close> otherwise. The
  comparison is equality of strings; nothing is normalised.
\<close>

theorem response_url_rule:
  assumes "build_url rt site_data username = Inr target"
    and "dict_get site_data ''errorType'' = PStr ''response_url''"
    and "get_result (session_get rt target) = Inr (http_status, response_url)"
    and "text_result (session_get rt target) = Inr text"
  shows "verdict rt site_name site_data username
           = Inr (if response_url = target then Found else NotFound)
       \<and> ((\<exists>r. fetch rt site_name site_data username = Inr (Some r)) = (response_url = target))"
proof -
  have d: "detect (dict_get site_data ''errorType'') site_data http_status text response_url target
             = Inr (response_url = target)"
    using assms(2) by (simp add: detect_def)
  show ?thesis
    using fetch_received[OF assms(1,3,4) d, of site_name] by auto
qed

theorem response_url_rule_witness:
  "verdict demo_rt ''SiteC'' site_c ''alice'' = Inr NotFound
     \<and> \<not> (\<exists>r. fetch demo_rt ''SiteC'' site_c ''alice'' = Inr (Some r))"
proof -
  have t: "dict_get site_c ''errorType'' = PStr ''response_url''"
    by (simp add: dict_get_def site_c_def)
  have g: "get_result (session_get demo_rt ''https://c.test/alice'')
             = Inr (200, ''https://c.test/login'')"
    by (simp add: demo_get reply_fields)
  have b: "text_result (session_get demo_rt ''https://c.test/alice'') = Inr ''Sign in''"
    by (simp add: demo_get reply_fields)
  show ?thesis
    using response_url_rule[OF demo_url(3) t g b, of "''SiteC''"] by simp
qed

text \<open>
  C10. A probe of a descriptor whose \<^verbatim>\<open>errorType\<close> is missing or is none of the three
  recognised strings never returns a dict, whatever the network does; and once the
  response and its body have arrived the \<^verbatim>\<open>try\<close> body completes with \<^verbatim>\<open>exists\<close> false, so
  the verdict is \<open>NotFound\<close> (not \<open>ProbeFailed\<close>) and the result is \<^verbatim>\<open>None\<close>, as for a
  genuine non-match.
\<close>

theorem unrecognised_rule:
  assumes "dict_get site_data ''errorType''
             \<notin> {PStr ''status_code'', PStr ''message'', PStr ''response_url''}"
  shows "fetch rt site_name site_data username \<noteq> Inr (Some r)
       \<and> verdict rt site_name site_data username \<noteq> Inr Found
       \<and> (build_url rt site_data username = Inr target
            \<and> get_result (session_get rt target) = Inr (http_status, response_url)
            \<and> text_result (session_get rt target) = Inr text
          \<longrightarrow> verdict rt site_name site_data username = Inr NotFound
            \<and> fetch rt site_name site_data username = Inr None)"
proof -
  have d: "detect (dict_get site_data ''errorType'') site_data st tx ru tg = Inr False"
    for st tx ru tg
    using assms by (simp add: detect_def)
  have no: "fetch rt site_name site_data username \<noteq> Inr (Some r')" for r'
    by (auto simp add: fetch_def fetch_try_def Let_def d split: sum.splits prod.splits)
  have "verdict rt site_name site_data username = Inr NotFound
          \<and> fetch rt site_name site_data username = Inr None"
    if "build_url rt site_data username = Inr target"
      and "get_result (session_get rt target) = Inr (http_status, response_url)"
      and "text_result (session_get rt target) = Inr text"
    using fetch_received[OF that d, of site_name] by simp
  then show ?thesis
    using no verdict_found_iff[of rt site_name site_data username] by blast
qed

theorem unrecognised_rule_witness:
  "dict_get site_d ''errorType'' = PNone
     \<and> verdict demo_rt ''SiteD'' site_d ''alice'' = Inr NotFound
     \<and> fetch demo_rt ''SiteD'' site_d ''alice'' = Inr None"
proof -
  have t: "dict_get site_d ''errorType'' = PNone"
    by (simp add: dict_get_def site_d_def)
  then have h: "dict_get site_d ''errorType''
                  \<notin> {PStr ''status_code'', PStr ''message'', PStr ''response_url''}"
    by simp
  have g: "get_result (session_get demo_rt ''https://d.test/alice'')
             = Inr (200, ''https://d.test/alice'')"
    by (simp add: demo_get reply_fields)
  have b: "text_result (session_get demo_rt ''https://d.test/alice'') = Inr ''alice''"
    by (simp add: demo_get reply_fields)
  show ?thesis
    using unrecognised_rule[OF h, of demo_rt "''SiteD''" "''alice''" _ "''https://d.test/alice''"
        200 "''https://d.test/alice''" "''alice''"] t g b demo_url(4)
    by simp
qed

subsection \<open>The latency\<close>

text \<open>
  C6, as the code has it. The \<^verbatim>\<open>latency_ms\<close> of a returned dict is the time from
  \<^verbatim>\<open>start_time\<close> to the arrival of the response (the return of \<^verbatim>\<open>session.get\<close>), in
  milliseconds and rounded to an integer. The second reading of the clock comes before
  \<^verbatim>\<open>response.text()\<close> is awaited, so the time taken to read the body is not part of it:
  moving the end of the body read to any other moment leaves the result unchanged.
\<close>

theorem latency_until_response:
  assumes "fetch rt site_name site_data username = Inr (Some r)"
  shows "build_url rt site_data username = Inr (url r)
       \<and> latency_ms r = fmt_0f ((clock_got (session_get rt (url r))
                                  - clock_start (session_get rt (url r))) * 1000)
       \<and> fetch (rt\<lparr>session_get := \<lambda>u. (session_get rt u)\<lparr>clock_read := later u\<rparr>\<rparr>)
               site_name site_data username = Inr (Some r)"
  using fetch_found_fields(1,4)[OF assms]
    fetch_ignores_clock_read[where rt = rt and later = later] assms
  by simp

theorem latency_until_response_witness:
  "fetch demo_rt ''SiteA'' site_a ''alice'' = Inr (Some found_a)
     \<and> latency_ms found_a = fmt_0f ((clock_got (session_get demo_rt (url found_a))
                                  - clock_start (session_get demo_rt (url found_a))) * 1000)
     \<and> latency_ms found_a = ''250''"
  using latency_until_response[OF fetch_a] fetch_a by (simp add: found_a_def)

text \<open>
  C6 as stated fails: in the example world the response arrives 250 ms after the start
  and its body has been read 3000 ms after the start; the dict says 250.
\<close>

theorem latency_excludes_body_counterexample:
  "fetch demo_rt ''SiteA'' site_a ''alice'' = Inr (Some found_a)
     \<and> latency_ms found_a = ''250''
     \<and> (clock_read (session_get demo_rt ''https://a.test/alice'')
          - clock_start (session_get demo_rt ''https://a.test/alice'')) * 1000 = 3000
     \<and> fmt_0f 3000 = ''3000''"
  using fetch_a by (simp add: found_a_def demo_get reply_fields fmt_0f_def round_half_even_def)

section \<open>Properties of the scan\<close>

subsection \<open>The loop\<close>

text \<open>Every task is handed back once, whatever the completion order.\<close>

lemma as_completed_mset: "mset (as_completed choices pending) = mset pending"
proof (induction choices arbitrary: pending)
  case Nil
  show ?case by simp
next
  case (Cons c choices)
  show ?case
  proof (cases "pending = []")
    case True
    then show ?thesis by simp
  next
    case False
    define i where "i = c mod length pending"
    have i: "i < length pending"
      using False by (simp add: i_def)
    have "mset pending = mset (take i pending @ pending ! i # drop (Suc i) pending)"
      using id_take_nth_drop[OF i] by simp
    then show ?thesis
      using False Cons.IH[of "take i pending @ drop (Suc i) pending"]
      by (simp add: i_def)
  qed
qed

text \<open>And every order of the tasks is the completion order of some choices.\<close>

lemma as_completed_any_order:
  "mset order = mset pending \<Longrightarrow> \<exists>choices. as_completed choices pending = order"
proof (induction order arbitrary: pending)
  case Nil
  then have "pending = []" by simp
  then have "as_completed [] pending = []" by simp
  then show ?case by blast
next
  case (Cons x order)
  then have "x \<in> set pending"
    by (metis list.set_intros(1) mset_eq_setD)
  then obtain i where i: "i < length pending" and x: "pending ! i = x"
    by (auto simp: in_set_conv_nth)
  let ?rest = "take i pending @ drop (Suc i) pending"
  have "mset pending = mset ?rest + {#x#}"
    using id_take_nth_drop[OF i] x
    by (metis add_mset_add_single mset.simps(2) mset_append union_mset_add_mset_right)
  then have "mset order = mset ?rest"
    using Cons.prems by simp
  then obtain choices where c: "as_completed choices ?rest = order"
    using Cons.IH by blast
  have "as_completed (i # choices) pending = x # order"
    using i x c by auto
  then show ?case by blast
qed

lemma drain_returns:
  "drain tot (map Inr rs) s =
     (None, \<lparr>results = results s @ List.map_filter id rs,
             completed = completed s + length rs,
             shown = shown s @ map (\<lambda>k. real (completed s + Suc k) / real tot)
                                 [0..<length rs]\<rparr>)"
proof (induction rs arbitrary: s)
  case Nil
  show ?case by simp
next
  case (Cons r rs)
  let ?s = "\<lparr>results = (case r of None \<Rightarrow> results s | Some x \<Rightarrow> results s @ [x]),
             completed = completed s + 1,
             shown = shown s @ [real (completed s + 1) / real tot]\<rparr>"
  have "drain tot (map Inr (r # rs)) s = drain tot (map Inr rs) ?s"
    by simp
  also have "\<dots> = (None, \<lparr>results = results ?s @ List.map_filter id rs,
             completed = completed ?s + length rs,
             shown = shown ?s @ map (\<lambda>k. real (completed ?s + Suc k) / real tot)
                                  [0..<length rs]\<rparr>)"
    by (rule Cons.IH)
  also have "\<dots> = (None, \<lparr>results = results s @ List.map_filter id (r # rs),
             completed = completed s + length (r # rs),
             shown = shown s @ map (\<lambda>k. real (completed s + Suc k) / real tot)
                                 [0..<length (r # rs)]\<rparr>)"
    by (cases r) (simp_all add: List.map_filter_simps map_upt_Suc del: upt_Suc)
  finally show ?case .
qed

lemma drain_raises:
  "fst (drain tot futures s) = None \<Longrightarrow> \<exists>rs. futures = map Inr rs"
proof (induction tot futures s rule: drain.induct)
  case (1 tot s)
  show ?case by simp
next
  case (2 tot e futures s)
  then show ?case by simp
next
  case (3 tot result futures s)
  then obtain rs where "futures = map Inr rs" by auto
  then have "Inr result # futures = map Inr (result # rs)" by simp
  then show ?case by (rule exI[of _ "result # rs"])
qed

lemma length_tasks: "length (tasks rt username site_data) = min 200 (length site_data)"
  by (simp add: tasks_def min.commute)

lemma nth_tasks:
  "i < min 200 (length site_data) \<Longrightarrow>
     tasks rt username site_data ! i
       = fetch rt (fst (site_data ! i)) (snd (site_data ! i)) username"
  by (simp add: tasks_def case_prod_beta)

lemma progress_sorted:
  "sorted (0 # map (\<lambda>k. real (Suc k) / real n) [0..<n])"
proof -
  have "sorted_wrt (\<lambda>i j. real (Suc i) / real n \<le> real (Suc j) / real n) [0..<n]"
    by (rule sorted_wrt_mono_rel[OF _ sorted_upt]) (simp add: divide_right_mono)
  then have "sorted (map (\<lambda>k. real (Suc k) / real n) [0..<n])"
    by (simp only: sorted_map)
  then show ?thesis by simp
qed

lemma map_filter_Inr:
  "List.map_filter (\<lambda>t. case t of Inl e \<Rightarrow> None | Inr r \<Rightarrow> r) (map Inr rs) = List.map_filter id rs"
  by (induction rs) (simp_all add: List.map_filter_simps split: option.splits)

lemma run_search_returned:
  assumes "run_search rt choices username site_data = (None, s)"
  shows "completed s = min 200 (length site_data)"
    and "shown s = 0 # map (\<lambda>k. real (Suc k) / real (min 200 (length site_data)))
                          [0..<min 200 (length site_data)]"
    and "results s = List.map_filter (\<lambda>t. case t of Inl e \<Rightarrow> None | Inr r \<Rightarrow> r)
                       (as_completed choices (tasks rt username site_data))"
proof -
  let ?ts = "tasks rt username site_data"
  let ?s0 = "\<lparr>results = [], completed = 0, shown = [0]\<rparr>"
  have d: "drain (length ?ts) (as_completed choices ?ts) ?s0 = (None, s)"
    using assms by (simp add: run_search_def Let_def)
  then have "fst (drain (length ?ts) (as_completed choices ?ts) ?s0) = None" by simp
  then obtain rs where rs: "as_completed choices ?ts = map Inr rs"
    using drain_raises by blast
  have "size (mset (as_completed choices ?ts)) = size (mset ?ts)"
    by (simp only: as_completed_mset)
  then have n: "length rs = min 200 (length site_data)"
    by (simp add: rs length_tasks)
  have s: "s = \<lparr>results = List.map_filter id rs, completed = length rs,
                 shown = 0 # map (\<lambda>k. real (Suc k) / real (length ?ts)) [0..<length rs]\<rparr>"
    using d by (simp add: rs drain_returns)
  show "completed s = min 200 (length site_data)"
    by (simp add: s n)
  show "shown s = 0 # map (\<lambda>k. real (Suc k) / real (min 200 (length site_data)))
                          [0..<min 200 (length site_data)]"
    by (simp add: s n length_tasks)
  show "results s = List.map_filter (\<lambda>t. case t of Inl e \<Rightarrow> None | Inr r \<Rightarrow> r)
                       (as_completed choices ?ts)"
    by (simp only: rs map_filter_Inr) (simp add: s)
qed

text \<open>The loop awaits the futures one after the other and stops at the first that raises.\<close>

lemma drain_completed_le:
  "completed (snd (drain tot futures s)) \<le> completed s + length futures"
proof (induction tot futures s rule: drain.induct)
  case (1 tot s)
  show ?case by simp
next
  case (2 tot e futures s)
  show ?case by simp
next
  case (3 tot result futures s)
  then show ?case by simp
qed

lemma run_search_completed_le:
  "completed (snd (run_search rt choices username site_data)) \<le> min 200 (length site_data)"
proof -
  let ?ts = "tasks rt username site_data"
  have "size (mset (as_completed choices ?ts)) = size (mset ?ts)"
    by (simp only: as_completed_mset)
  then have "length (as_completed choices ?ts) = min 200 (length site_data)"
    by (simp add: length_tasks)
  then show ?thesis
    using drain_completed_le[of "length ?ts" "as_completed choices ?ts"
        "\<lparr>results = [], completed = 0, shown = [0]\<rparr>"]
    by (simp add: run_search_def Let_def)
qed

lemma run_search_awaited:
  assumes "run_search rt choices username site_data = (None, s)"
  shows "\<exists>rs. as_completed choices (tasks rt username site_data) = map Inr rs
              \<and> mset (map Inr rs) = mset (tasks rt username site_data)
              \<and> completed s = length rs"
proof -
  let ?ts = "tasks rt username site_data"
  let ?s0 = "\<lparr>results = [], completed = 0, shown = [0]\<rparr>"
  have d: "drain (length ?ts) (as_completed choices ?ts) ?s0 = (None, s)"
    using assms by (simp add: run_search_def Let_def)
  then have "fst (drain (length ?ts) (as_completed choices ?ts) ?s0) = None" by simp
  then obtain rs where rs: "as_completed choices ?ts = map Inr rs"
    using drain_raises by blast
  have m: "mset (map Inr rs) = mset ?ts"
    using as_completed_mset[of choices ?ts] by (simp only: rs)
  have "s = \<lparr>results = List.map_filter id rs, completed = length rs,
              shown = 0 # map (\<lambda>k. real (Suc k) / real (length ?ts)) [0..<length rs]\<rparr>"
    using d by (simp add: rs drain_returns)
  then have "completed s = length rs"
    by simp
  then show ?thesis
    using rs m by blast
qed

lemma run_search_all_return:
  assumes "\<forall>t \<in> set (tasks rt username site_data). \<exists>r. t = Inr r"
  shows "fst (run_search rt choices username site_data) = None"
proof -
  let ?ts = "tasks rt username site_data"
  have "set (as_completed choices ?ts) = set ?ts"
    using as_completed_mset[of choices ?ts] by (rule mset_eq_setD)
  then have "\<forall>t \<in> set (as_completed choices ?ts). \<exists>r. t = Inr r"
    using assms by simp
  then obtain rs where "as_completed choices ?ts = map Inr rs"
    by (auto simp: ex_map_conv[symmetric])
  then show ?thesis
    by (simp add: run_search_def drain_returns)
qed

subsection \<open>The example scans, evaluated\<close>

lemma demo_tasks: "tasks demo_rt ''alice'' demo_catalog = [Inr (Some found_a), Inr None]"
  by (simp add: tasks_def demo_catalog_def fetch_a fetch_b)

lemma demo_scan: "run_search demo_rt [1] ''alice'' demo_catalog = (None, demo_state)"
  by (simp add: run_search_def demo_tasks demo_state_def)

lemma fetch_dead: "fetch dead_rt site_name site_a ''alice'' = Inr None"
proof -
  have u: "build_url dead_rt site_a ''alice'' = Inr ''https://a.test/alice''"
    by (simp add: build_url_def str_format_def field_index_def site_a_def)
  have "fetch_try dead_rt site_name site_a ''https://a.test/alice'' e = Inl ClientError" for e
    by (simp add: fetch_try_def dead_rt_def dead_net_def refused_def)
  then show ?thesis
    by (simp add: fetch_def u)
qed

lemma dead_tasks: "t \<in> set (tasks dead_rt ''alice'' catalog_201) \<Longrightarrow> t = Inr None"
proof -
  assume "t \<in> set (tasks dead_rt ''alice'' catalog_201)"
  then obtain x where x: "x \<in> set (take 200 catalog_201)"
    and t: "t = (case x of (site_name, data) \<Rightarrow> fetch dead_rt site_name data ''alice'')"
    unfolding tasks_def by (auto simp only: set_map)
  from x have "x \<in> set catalog_201"
    by (rule in_set_takeD)
  then obtain i where "x = numbered i"
    unfolding catalog_201_def by (auto simp only: set_map)
  then show ?thesis
    by (simp only: t numbered_def prod.case fetch_dead)
qed

lemma dead_scan_returns: "fst (run_search dead_rt [] ''alice'' catalog_201) = None"
proof (rule run_search_all_return)
  show "\<forall>t\<in>set (tasks dead_rt ''alice'' catalog_201). \<exists>r. t = Inr r"
    using dead_tasks by blast
qed

lemma length_catalog_201: "length catalog_201 = 201"
  by (simp only: catalog_201_def length_map length_upt diff_zero)

subsection \<open>An exception that leaves \<^verbatim>\<open>fetch\<close>\<close>

text \<open>
  C5. The template of \<open>site_e\<close> ends in a lone brace. \<^verbatim>\<open>str.format\<close> raises ValueError on
  line 41, before the \<^verbatim>\<open>try\<close>: the exception leaves \<^verbatim>\<open>fetch\<close> instead of becoming a failed
  probe, and \<^verbatim>\<open>await future\<close> re-raises it out of \<^verbatim>\<open>run_search\<close>.
\<close>

theorem malformed_template_raises:
  "fetch demo_rt ''SiteE'' site_e ''alice'' = Inl ValueError
     \<and> fst (run_search demo_rt [] ''alice'' [(''SiteA'', site_a), (''SiteE'', site_e)])
         = Some ValueError"
  by (simp add: fetch_a fetch_e run_search_def tasks_def Let_def)

subsection \<open>Tasks and completions\<close>

text \<open>
  C1, as the code has it. For a catalog of \<open>N\<close> entries \<^verbatim>\<open>run_search\<close> creates one task for
  each of the first \<open>min 200 N\<close> entries, in order, and none for the others (the slice
  \<^verbatim>\<open>[:200]\<close>). The loop never consumes more than \<open>min 200 N\<close> outcomes. When no task
  raises, whatever the completion order, the futures it awaits are the outcomes of the
  tasks, each once, and it consumes one outcome for each: \<open>min 200 N\<close> in all.
\<close>

theorem one_task_per_descriptor:
  "length (tasks rt username site_data) = min 200 (length site_data)
     \<and> (\<forall>i < min 200 (length site_data).
           tasks rt username site_data ! i
             = fetch rt (fst (site_data ! i)) (snd (site_data ! i)) username)
     \<and> completed (snd (run_search rt choices username site_data))
         \<le> min 200 (length site_data)
     \<and> (run_search rt choices username site_data = (None, s)
          \<longrightarrow> (\<exists>rs. as_completed choices (tasks rt username site_data) = map Inr rs
                    \<and> mset (map Inr rs) = mset (tasks rt username site_data)
                    \<and> completed s = length rs
                    \<and> length rs = min 200 (length site_data)))"
proof -
  have "\<exists>rs. as_completed choices (tasks rt username site_data) = map Inr rs
              \<and> mset (map Inr rs) = mset (tasks rt username site_data)
              \<and> completed s = length rs
              \<and> length rs = min 200 (length site_data)"
    if r: "run_search rt choices username site_data = (None, s)"
    using run_search_awaited[OF r] run_search_returned(1)[OF r] by auto
  then show ?thesis
    using run_search_completed_le[of rt choices username site_data]
    by (simp add: length_tasks nth_tasks)
qed

theorem one_task_per_descriptor_witness:
  "length (tasks demo_rt ''alice'' demo_catalog) = 2
     \<and> tasks demo_rt ''alice'' demo_catalog ! 1 = fetch demo_rt ''SiteB'' site_b ''alice''
     \<and> run_search demo_rt [1] ''alice'' demo_catalog = (None, demo_state)
     \<and> as_completed [1] (tasks demo_rt ''alice'' demo_catalog) = map Inr [None, Some found_a]
     \<and> mset (map Inr [None, Some found_a]) = mset (tasks demo_rt ''alice'' demo_catalog)
     \<and> completed demo_state = 2"
proof -
  have n: "min 200 (length demo_catalog) = 2" and i: "demo_catalog ! 1 = (''SiteB'', site_b)"
    by (simp_all add: demo_catalog_def)
  have "length (tasks demo_rt ''alice'' demo_catalog) = 2
          \<and> tasks demo_rt ''alice'' demo_catalog ! 1 = fetch demo_rt ''SiteB'' site_b ''alice''
          \<and> completed demo_state = 2"
    using one_task_per_descriptor[of demo_rt "''alice''" demo_catalog "[1]" demo_state]
      demo_scan n i
    by auto
  then show ?thesis
    using demo_scan by (simp add: demo_tasks)
qed

text \<open>
  C1 as stated fails: of 201 entries, 200 get a task, and the scan ends after 200
  completions.
\<close>

theorem truncation_counterexample:
  "length catalog_201 = 201
     \<and> length (tasks dead_rt ''alice'' catalog_201) = 200
     \<and> fst (run_search dead_rt [] ''alice'' catalog_201) = None
     \<and> completed (snd (run_search dead_rt [] ''alice'' catalog_201)) = 200"
proof -
  have "run_search dead_rt [] ''alice'' catalog_201
          = (None, snd (run_search dead_rt [] ''alice'' catalog_201))"
    using dead_scan_returns by (simp add: prod_eq_iff)
  then have "completed (snd (run_search dead_rt [] ''alice'' catalog_201))
               = min 200 (length catalog_201)"
    by (rule run_search_returned(1))
  then show ?thesis
    by (simp add: length_catalog_201 length_tasks dead_scan_returns)
qed

subsection \<open>Progress\<close>

text \<open>
  C7, as the code has it. In a scan of \<open>N\<close> entries in which no task raises, with
  \<open>T = min 200 N\<close>: after the 0 of \<^verbatim>\<open>st.progress(0)\<close> the bar is given one value per
  completion, \<open>(k + 1) / T\<close> at the completion number \<open>k\<close> (from 0), whatever the outcome
  of the probe; the values never decrease; there are \<open>T\<close> completions; and when the
  catalog is not empty the last value is 1.
\<close>

theorem progress_ticks:
  assumes "run_search rt choices username site_data = (None, s)"
  shows "completed s = min 200 (length site_data)
       \<and> shown s = 0 # map (\<lambda>k. real (Suc k) / real (min 200 (length site_data)))
                          [0..<min 200 (length site_data)]
       \<and> sorted (shown s)
       \<and> (site_data \<noteq> [] \<longrightarrow> last (shown s) = 1)"
proof -
  let ?T = "min 200 (length site_data)"
  from assms have c: "completed s = ?T"
    and sh: "shown s = 0 # map (\<lambda>k. real (Suc k) / real ?T) [0..<?T]"
    by (rule run_search_returned(1), rule run_search_returned(2))
  have "last (shown s) = 1" if "site_data \<noteq> []"
  proof -
    from that obtain m where m: "?T = Suc m"
      by (cases ?T) (auto simp: min_def split: if_splits)
    show ?thesis
      unfolding sh m by (simp del: of_nat_Suc)
  qed
  then show ?thesis
    using c sh progress_sorted[of ?T] by simp
qed

theorem progress_ticks_witness:
  "run_search demo_rt [1] ''alice'' demo_catalog = (None, demo_state)
     \<and> completed demo_state = 2
     \<and> shown demo_state = [0, 1 / 2, 1]
     \<and> sorted (shown demo_state)
     \<and> last (shown demo_state) = 1"
proof -
  have "demo_catalog \<noteq> []"
    by (simp add: demo_catalog_def)
  then have "sorted (shown demo_state) \<and> last (shown demo_state) = 1"
    using progress_ticks[OF demo_scan] by blast
  then show ?thesis
    using demo_scan by (simp add: demo_state_def)
qed

text \<open>
  C7 as stated fails: with 201 entries the bar reaches 1 with its 200th update, the
  last one.
\<close>

theorem progress_total_counterexample:
  "length catalog_201 = 201
     \<and> fst (run_search dead_rt [] ''alice'' catalog_201) = None
     \<and> length (tl (shown (snd (run_search dead_rt [] ''alice'' catalog_201)))) = 200
     \<and> last (shown (snd (run_search dead_rt [] ''alice'' catalog_201))) = 1"
proof -
  let ?s = "snd (run_search dead_rt [] ''alice'' catalog_201)"
  have "run_search dead_rt [] ''alice'' catalog_201 = (None, ?s)"
    using dead_scan_returns by (simp add: prod_eq_iff)
  then have "shown ?s = 0 # map (\<lambda>k. real (Suc k) / real (min 200 (length catalog_201)))
                              [0..<min 200 (length catalog_201)]"
    by (rule run_search_returned(2))
  then have sh: "shown ?s = 0 # map (\<lambda>k. real (Suc k) / 200) [0..<Suc 199]"
    by (simp add: length_catalog_201)
  have "last (shown ?s) = 1"
    unfolding sh by (simp del: of_nat_Suc upt_Suc add: last_map)
  moreover have "length (tl (shown ?s)) = 200"
    unfolding sh by (simp del: upt_Suc)
  ultimately show ?thesis
    by (simp add: length_catalog_201 dead_scan_returns)
qed

subsection \<open>The result list\<close>

lemma set_map_filter_returned:
  "r \<in> set (List.map_filter (\<lambda>t. case t of Inl e \<Rightarrow> None | Inr x \<Rightarrow> x) ts)
     \<longleftrightarrow> Inr (Some r) \<in> set ts"
  by (induction ts) (auto simp add: List.map_filter_simps split: sum.splits option.splits)

lemma mset_map_filter:
  "mset xs = mset ys \<Longrightarrow> mset (List.map_filter g xs) = mset (List.map_filter g ys)"
proof -
  assume "mset xs = mset ys"
  then have "image_mset (the \<circ> g) (filter_mset (\<lambda>x. g x \<noteq> None) (mset xs))
               = image_mset (the \<circ> g) (filter_mset (\<lambda>x. g x \<noteq> None) (mset ys))"
    by simp
  then show ?thesis
    by (simp add: List.map_filter_def)
qed

lemma in_tasks_iff:
  "t \<in> set (tasks rt username site_data)
     \<longleftrightarrow> (\<exists>(site_name, data) \<in> set (take 200 site_data).
            t = fetch rt site_name data username)"
  by (auto simp add: tasks_def)

text \<open>
  C8. When \<^verbatim>\<open>run_search\<close> returns, its list holds, in completion order, the dicts returned
  by the probes and nothing else: each returned dict once, nothing for a probe that
  returned \<^verbatim>\<open>None\<close>. Every dict in it is what \<^verbatim>\<open>fetch\<close> returned for an entry of the
  catalog (among those that got a task), whose verdict is \<open>Found\<close> and whose name is the
  dict's \<^verbatim>\<open>site\<close>; and every such probe that returned a dict has it in the list.
\<close>

theorem results_are_found:
  assumes "run_search rt choices username site_data = (None, s)"
  shows "results s = List.map_filter (\<lambda>t. case t of Inl e \<Rightarrow> None | Inr r \<Rightarrow> r)
                       (as_completed choices (tasks rt username site_data))
       \<and> mset (results s) = mset (List.map_filter (\<lambda>t. case t of Inl e \<Rightarrow> None | Inr r \<Rightarrow> r)
                                     (tasks rt username site_data))
       \<and> (\<forall>r \<in> set (results s). \<exists>(site_name, data) \<in> set (take 200 site_data).
             fetch rt site_name data username = Inr (Some r)
               \<and> verdict rt site_name data username = Inr Found
               \<and> site r = site_name)
       \<and> (\<forall>(site_name, data) \<in> set (take 200 site_data).
             \<forall>r. fetch rt site_name data username = Inr (Some r) \<longrightarrow> r \<in> set (results s))"
proof -
  let ?g = "\<lambda>t. case t of Inl e \<Rightarrow> None | Inr r \<Rightarrow> r"
  let ?ts = "tasks rt username site_data"
  have res: "results s = List.map_filter ?g (as_completed choices ?ts)"
    using assms by (rule run_search_returned(3))
  have m: "mset (results s) = mset (List.map_filter ?g ?ts)"
    unfolding res by (rule mset_map_filter) (rule as_completed_mset)
  have mem: "r \<in> set (results s) \<longleftrightarrow> Inr (Some r) \<in> set ?ts" for r
  proof -
    have "set (results s) = set (List.map_filter ?g ?ts)"
      using m by (rule mset_eq_setD)
    then show ?thesis
      by (simp only: set_map_filter_returned)
  qed
  have sound: "\<exists>(site_name, data) \<in> set (take 200 site_data).
                 fetch rt site_name data username = Inr (Some r)
                   \<and> verdict rt site_name data username = Inr Found
                   \<and> site r = site_name"
    if "r \<in> set (results s)" for r
  proof -
    from that obtain site_name data where in_cat: "(site_name, data) \<in> set (take 200 site_data)"
      and f: "fetch rt site_name data username = Inr (Some r)"
      unfolding mem in_tasks_iff by force
    have "verdict rt site_name data username = Inr Found"
      using f by (auto simp: verdict_found_iff)
    moreover have "site r = site_name"
      using f by (rule fetch_found_fields(2))
    ultimately show ?thesis
      using in_cat f by blast
  qed
  have complete: "r \<in> set (results s)"
    if "(site_name, data) \<in> set (take 200 site_data)"
      and "fetch rt site_name data username = Inr (Some r)" for site_name data r
    unfolding mem in_tasks_iff using that by force
  show ?thesis
    using res m sound complete by blast
qed

theorem results_are_found_witness:
  "run_search demo_rt [1] ''alice'' demo_catalog = (None, demo_state)
     \<and> results demo_state = [found_a]
     \<and> fetch demo_rt ''SiteA'' site_a ''alice'' = Inr (Some found_a)
     \<and> verdict demo_rt ''SiteA'' site_a ''alice'' = Inr Found
     \<and> fetch demo_rt ''SiteB'' site_b ''alice'' = Inr None"
proof -
  have "\<exists>(site_name, data) \<in> set (take 200 demo_catalog).
          fetch demo_rt site_name data ''alice'' = Inr (Some found_a)
            \<and> verdict demo_rt site_name data ''alice'' = Inr Found
            \<and> site found_a = site_name"
    using results_are_found[OF demo_scan] by (simp add: demo_state_def)
  then have "verdict demo_rt ''SiteA'' site_a ''alice'' = Inr Found"
    by (auto simp add: demo_catalog_def found_a_def)
  then show ?thesis
    using demo_scan fetch_a fetch_b by (simp add: demo_state_def)
qed

end
